theory Spec2Isabelle
  imports Complex_Main
begin

section \<open>Values of the raw store\<close>

text \<open>
  The raw collection \<open>complaints_2024\<close> holds the rows of the remote API as the
  downloader inserted them: documents whose field values are text (the cleaning pass
  is the one that turns the coordinates into numbers). A field of a document is absent,
  null, or a string; \<open>record.get(k)\<close> gives \<open>None\<close> for an absent field.
\<close>

datatype pyval = PNone | PStr string

type_synonym raw_record = "string \<rightharpoonup> pyval"

definition get :: "raw_record \<Rightarrow> string \<Rightarrow> pyval" where
  "get record k = (case record k of None \<Rightarrow> PNone | Some v \<Rightarrow> v)"

definition get_default :: "raw_record \<Rightarrow> string \<Rightarrow> pyval \<Rightarrow> pyval" where
  "get_default record k d = (case record k of None \<Rightarrow> d | Some v \<Rightarrow> v)"

text \<open>Truth value of a Python object: \<open>None\<close> and the empty string are false.\<close>

fun truthy :: "pyval \<Rightarrow> bool" where
  "truthy PNone = False"
| "truthy (PStr s) = (s \<noteq> [])"

definition py_all :: "pyval list \<Rightarrow> bool" where
  "py_all vs = list_all truthy vs"

subsection \<open>Floating-point values\<close>

text \<open>
  A Python float is a double: a finite number, an infinity or NaN. A finite double is a
  rational number, and is modelled by that number exactly. Comparisons with NaN are
  false.
\<close>

datatype pyfloat = Finite real | PosInf | NegInf | NaN

text \<open>The number \<open>m / 2 ^ e\<close>, the form in which the doubles below are written.\<close>

definition double :: "int \<Rightarrow> nat \<Rightarrow> real" where
  "double m e = real_of_int m / 2 ^ e"

text \<open>
  The float literals \<open>40.4\<close>, \<open>41.0\<close>, \<open>-74.4\<close> and \<open>-73.6\<close> of line 74 denote
  the doubles nearest to these decimals: \<open>41.0\<close> is exact, the double of \<open>40.4\<close> lies
  below 40.4, that of \<open>-74.4\<close> below -74.4 and that of \<open>-73.6\<close> above -73.6.
\<close>

definition lit_40_4 :: real where
  "lit_40_4 = double 5685794529555251 47"

definition lit_41_0 :: real where
  "lit_41_0 = double 41 0"

definition lit_neg_74_4 :: real where
  "lit_neg_74_4 = double (- 2617717283409101) 45"

definition lit_neg_73_6 :: real where
  "lit_neg_73_6 = double (- 2589569785738035) 45"

fun float_le :: "pyfloat \<Rightarrow> pyfloat \<Rightarrow> bool" where
  "float_le NaN _ = False"
| "float_le _ NaN = False"
| "float_le NegInf _ = True"
| "float_le _ PosInf = True"
| "float_le (Finite a) (Finite b) = (a \<le> b)"
| "float_le _ _ = False"

datatype conv_error = ValueError | TypeError

text \<open>
  \<open>float(x)\<close>: a type error on \<open>None\<close>, and on a string the value it denotes or a
  value error. The reading of a string is Python's own and is a parameter
  \<open>str2float\<close> of the model (\<open>None\<close> where Python raises \<open>ValueError\<close>).
\<close>

fun py_float :: "(string \<Rightarrow> pyfloat option) \<Rightarrow> pyval \<Rightarrow> conv_error + pyfloat" where
  "py_float str2float PNone = Inl TypeError"
| "py_float str2float (PStr s) =
     (case str2float s of None \<Rightarrow> Inl ValueError | Some f \<Rightarrow> Inr f)"

section \<open>The cleaning pass (\<open>clean_data.py\<close>)\<close>

record clean_record =
  cmplnt_num :: pyval
  cmplnt_fr_dt :: pyval
  cmplnt_fr_tm :: pyval
  boro_nm :: pyval
  latitude :: pyfloat
  longitude :: pyfloat
  ofns_desc :: pyval
  law_cat_cd :: pyval

text \<open>The collection is a list of documents in storage order.\<close>

definition delete_many :: "'a list \<Rightarrow> 'a list" where
  "delete_many coll = []"

definition insert_many :: "'a list \<Rightarrow> 'a list \<Rightarrow> 'a list" where
  "insert_many coll docs = coll @ docs"

record clean_state =
  clean_collection :: "clean_record list"
  seen_ids :: "pyval set"
  records_to_insert :: "clean_record list"
  skipped_missing :: nat
  skipped_invalid_coords :: nat
  skipped_duplicate :: nat
  processed :: nat

definition in_nyc_box :: "pyfloat \<Rightarrow> pyfloat \<Rightarrow> bool" where
  "in_nyc_box lat lon \<longleftrightarrow>
     float_le (Finite lit_40_4) lat \<and> float_le lat (Finite lit_41_0) \<and>
     float_le (Finite lit_neg_74_4) lon \<and> float_le lon (Finite lit_neg_73_6)"

text \<open>The tail of the loop body, after both coordinates were converted and validated.\<close>

definition accept_record ::
  "clean_state \<Rightarrow> raw_record \<Rightarrow> pyfloat \<Rightarrow> pyfloat \<Rightarrow> clean_state" where
  "accept_record st record lat lon =
     (let cmplnt_id = get record ''cmplnt_num'';
          st1 = st\<lparr>seen_ids := insert cmplnt_id (seen_ids st)\<rparr>;
          cleaned_record =
            \<lparr>cmplnt_num = cmplnt_id,
             cmplnt_fr_dt = get record ''cmplnt_fr_dt'',
             cmplnt_fr_tm = get_default record ''cmplnt_fr_tm'' (PStr ''00:00:00''),
             boro_nm = get record ''boro_nm'',
             latitude = lat,
             longitude = lon,
             ofns_desc = get record ''ofns_desc'',
             law_cat_cd = get record ''law_cat_cd''\<rparr>;
          st2 = st1\<lparr>records_to_insert := records_to_insert st1 @ [cleaned_record]\<rparr>
      in if length (records_to_insert st2) \<ge> 5000
         then st2\<lparr>clean_collection := insert_many (clean_collection st2) (records_to_insert st2),
                  records_to_insert := []\<rparr>
         else st2)"

text \<open>One iteration of \<open>for record in source_collection.find()\<close>.\<close>

definition process_record ::
  "(string \<Rightarrow> pyfloat option) \<Rightarrow> clean_state \<Rightarrow> raw_record \<Rightarrow> clean_state" where
  "process_record str2float st0 record =
     (let st = st0\<lparr>processed := processed st0 + 1\<rparr>;
          cmplnt_id = get record ''cmplnt_num'';
          cmplnt_dt = get record ''cmplnt_fr_dt'';
          boro = get record ''boro_nm'';
          lat_str = get record ''latitude'';
          lon_str = get record ''longitude'';
          ofns = get record ''ofns_desc'';
          law_cat = get record ''law_cat_cd''
      in if \<not> py_all [cmplnt_id, cmplnt_dt, boro, lat_str, lon_str, ofns, law_cat]
         then st\<lparr>skipped_missing := skipped_missing st + 1\<rparr>
         else if boro = PStr ''(null)'' \<or> boro = PStr ''''
         then st\<lparr>skipped_missing := skipped_missing st + 1\<rparr>
         else if cmplnt_id \<in> seen_ids st
         then st\<lparr>skipped_duplicate := skipped_duplicate st + 1\<rparr>
         else (case py_float str2float lat_str of
                 Inl e \<Rightarrow> st\<lparr>skipped_invalid_coords := skipped_invalid_coords st + 1\<rparr>
               | Inr lat \<Rightarrow>
                  (case py_float str2float lon_str of
                     Inl e \<Rightarrow> st\<lparr>skipped_invalid_coords := skipped_invalid_coords st + 1\<rparr>
                   | Inr lon \<Rightarrow>
                       if \<not> in_nyc_box lat lon
                       then st\<lparr>skipped_invalid_coords := skipped_invalid_coords st + 1\<rparr>
                       else accept_record st record lat lon)))"

definition initial_state :: "clean_record list \<Rightarrow> clean_state" where
  "initial_state old_clean =
     \<lparr>clean_collection = delete_many old_clean, seen_ids = {}, records_to_insert = [],
      skipped_missing = 0, skipped_invalid_coords = 0, skipped_duplicate = 0,
      processed = 0\<rparr>"

text \<open>
  Lines 18 to 108: clear the target, run the loop over the raw collection, insert the
  remaining records. \<open>old_clean\<close> is the content of the clean collection before the run.
\<close>

definition clean_pass ::
  "(string \<Rightarrow> pyfloat option) \<Rightarrow> raw_record list \<Rightarrow> clean_record list \<Rightarrow> clean_state" where
  "clean_pass str2float source_collection old_clean =
     (let st = foldl (process_record str2float) (initial_state old_clean) source_collection
      in if records_to_insert st \<noteq> []
         then st\<lparr>clean_collection := insert_many (clean_collection st) (records_to_insert st)\<rparr>
         else st)"

definition final_count :: "clean_state \<Rightarrow> nat" where
  "final_count st = length (clean_collection st)"

text \<open>Lines 126 to 133: the summary. Division of integers raises on a zero divisor.\<close>

datatype py_error = ZeroDivisionError

definition true_div :: "int \<Rightarrow> int \<Rightarrow> py_error + real" where
  "true_div a b = (if b = 0 then Inl ZeroDivisionError else Inr (real_of_int a / real_of_int b))"

record summary =
  original_records :: nat
  cleaned_records :: nat
  removed_missing :: nat
  removed_invalid_coords :: nat
  removed_duplicates :: nat
  total_removed :: int
  removed_percent :: real
  retention_rate :: real

text \<open>
  The whole cleaning run: the clean collection it leaves, and the summary or the error
  the run ends with.
\<close>

definition clean_2024_data ::
  "(string \<Rightarrow> pyfloat option) \<Rightarrow> raw_record list \<Rightarrow> clean_record list
     \<Rightarrow> clean_record list \<times> (py_error + summary)" where
  "clean_2024_data str2float source_collection old_clean =
     (let original_count = length source_collection;
          st = clean_pass str2float source_collection old_clean;
          final = final_count st
      in (clean_collection st,
          case true_div (int original_count - int final) (int original_count) of
            Inl e \<Rightarrow> Inl e
          | Inr removed \<Rightarrow>
             (case true_div (int final) (int original_count) of
                Inl e \<Rightarrow> Inl e
              | Inr kept \<Rightarrow>
                  Inr \<lparr>original_records = original_count,
                       cleaned_records = final,
                       removed_missing = skipped_missing st,
                       removed_invalid_coords = skipped_invalid_coords st,
                       removed_duplicates = skipped_duplicate st,
                       total_removed = int original_count - int final,
                       removed_percent = removed * 100,
                       retention_rate = kept * 100\<rparr>)))"

subsection \<open>The three checks, each on its own\<close>

definition required_fields :: "string list" where
  "required_fields =
     [''cmplnt_num'', ''cmplnt_fr_dt'', ''boro_nm'', ''latitude'', ''longitude'',
      ''ofns_desc'', ''law_cat_cd'']"

text \<open>Lines 54 to 61: a required field is absent or empty, or the borough is the null marker.\<close>

definition missing_check :: "raw_record \<Rightarrow> bool" where
  "missing_check record \<longleftrightarrow>
     list_ex (\<lambda>k. \<not> truthy (get record k)) required_fields \<or>
     get record ''boro_nm'' = PStr ''(null)'' \<or> get record ''boro_nm'' = PStr ''''"

text \<open>Line 64.\<close>

definition duplicate_check :: "clean_state \<Rightarrow> raw_record \<Rightarrow> bool" where
  "duplicate_check st record \<longleftrightarrow> get record ''cmplnt_num'' \<in> seen_ids st"

text \<open>Lines 69 to 80: a coordinate does not convert, or the pair is outside the box.\<close>

definition coordinate_check :: "(string \<Rightarrow> pyfloat option) \<Rightarrow> raw_record \<Rightarrow> bool" where
  "coordinate_check str2float record \<longleftrightarrow>
     (case py_float str2float (get record ''latitude'') of
        Inl e \<Rightarrow> True
      | Inr lat \<Rightarrow>
         (case py_float str2float (get record ''longitude'') of
            Inl e \<Rightarrow> True
          | Inr lon \<Rightarrow> \<not> in_nyc_box lat lon))"

text \<open>The clean record built from an accepted raw record.\<close>

definition cleaned :: "(string \<Rightarrow> pyfloat option) \<Rightarrow> raw_record \<Rightarrow> clean_record" where
  "cleaned str2float record =
     \<lparr>cmplnt_num = get record ''cmplnt_num'',
      cmplnt_fr_dt = get record ''cmplnt_fr_dt'',
      cmplnt_fr_tm = get_default record ''cmplnt_fr_tm'' (PStr ''00:00:00''),
      boro_nm = get record ''boro_nm'',
      latitude = projr (py_float str2float (get record ''latitude'')),
      longitude = projr (py_float str2float (get record ''longitude'')),
      ofns_desc = get record ''ofns_desc'',
      law_cat_cd = get record ''law_cat_cd''\<rparr>"

subsection \<open>Invariants of the loop\<close>

text \<open>The accepted records so far: those stored and those still buffered.\<close>

definition accepted :: "clean_state \<Rightarrow> clean_record list" where
  "accepted st = clean_collection st @ records_to_insert st"

text \<open>Invariants of the cleaning loop.\<close>

definition balanced :: "clean_state \<Rightarrow> bool" where
  "balanced st \<longleftrightarrow>
     processed st =
       length (accepted st) + skipped_missing st + skipped_invalid_coords st
         + skipped_duplicate st"

definition ids_tracked :: "clean_state \<Rightarrow> bool" where
  "ids_tracked st \<longleftrightarrow>
     distinct (map cmplnt_num (accepted st)) \<and> set (map cmplnt_num (accepted st)) \<subseteq> seen_ids st"

definition ids_exact :: "clean_state \<Rightarrow> bool" where
  "ids_exact st \<longleftrightarrow> seen_ids st = set (map cmplnt_num (accepted st))"

definition boxed :: "clean_state \<Rightarrow> bool" where
  "boxed st \<longleftrightarrow> list_all (\<lambda>c. in_nyc_box (latitude c) (longitude c)) (accepted st)"

section \<open>The downloader (\<open>scripts/download_2024_robust.py\<close>)\<close>

definition batch_size :: nat where
  "batch_size = 5000"

definition max_retries :: nat where
  "max_retries = 5"

text \<open>
  The remote API and the write to the store are the environment of the download. Each
  pass through the try block consumes one response: the request raised, or it returned
  a page and the insert of that page succeeded or raised after writing some leading
  documents of it (the outcome of the insert is not consulted for an empty page, which
  is never inserted). A run is given the list of the responses to come; where the list
  ends before the run does, the model has no result (\<open>None\<close>).
\<close>

datatype insert_outcome = Inserted | InsertRaised nat

datatype response = GetFailed | GetOk "raw_record list" insert_outcome

text \<open>
  The state of a run: the raw collection, the cursor, the running total, and a log of
  the offsets requested from the API and of the arguments of \<open>time.sleep\<close>.
\<close>

record download_state =
  collection :: "raw_record list"
  offset :: nat
  total_imported :: nat
  requested :: "nat list"
  slept :: "nat list"

text \<open>
  Lines 62 to 90, the body of \<open>try\<close>: \<open>Inr\<close> when it ends with \<open>success = True\<close> (with
  the page fetched), \<open>Inl\<close> when an exception reaches the handler.
\<close>

definition try_block ::
  "download_state \<Rightarrow> response \<Rightarrow> download_state + download_state \<times> raw_record list" where
  "try_block st r =
     (let st1 = st\<lparr>requested := requested st @ [offset st]\<rparr>
      in case r of
           GetFailed \<Rightarrow> Inl st1
         | GetOk results ins \<Rightarrow>
             if results = [] then Inr (st1, results)
             else (case ins of
                     InsertRaised k \<Rightarrow>
                       Inl (st1\<lparr>collection := collection st1 @ take k results\<rparr>)
                   | Inserted \<Rightarrow>
                       (let st2 = st1\<lparr>collection := insert_many (collection st1) results,
                                      total_imported := total_imported st1 + length results,
                                      offset := offset st1 + length results\<rparr>
                        in if length results < batch_size then Inr (st2, results)
                           else Inr (st2\<lparr>slept := slept st2 @ [1]\<rparr>, results))))"

text \<open>
  Lines 57 to 104, the inner loop from \<open>retry_count\<close> on. The result holds the state,
  the page when the loop ends with \<open>success\<close> (\<open>None\<close> when the attempts are used up)
  and the responses left. There is no result when the responses run out first.
\<close>

fun retry_loop ::
  "download_state \<Rightarrow> nat \<Rightarrow> response list
     \<Rightarrow> (download_state \<times> raw_record list option \<times> response list) option" where
  "retry_loop st retry_count [] =
     (if retry_count < max_retries then None else Some (st, None, []))"
| "retry_loop st retry_count (r # rs) =
     (if retry_count < max_retries
      then (case try_block st r of
              Inr (st', results) \<Rightarrow> Some (st', Some results, rs)
            | Inl st' \<Rightarrow>
                if retry_count + 1 < max_retries
                then retry_loop (st'\<lparr>slept := slept st' @ [(retry_count + 1) * 5]\<rparr>)
                       (retry_count + 1) rs
                else Some (st', None, rs))
      else Some (st, None, r # rs))"

lemma retry_loop_consumes:
  "retry_loop st retry_count rs = Some (st', Some results, rs') \<Longrightarrow> length rs' < length rs"
  by (induction st retry_count rs rule: retry_loop.induct)
    (auto split: if_splits sum.splits)

text \<open>Lines 56 to 110, the outer loop.\<close>

function page_loop :: "download_state \<Rightarrow> response list \<Rightarrow> download_state option" where
  "page_loop st rs =
     (case retry_loop st 0 rs of
        None \<Rightarrow> None
      | Some (st', None, rs') \<Rightarrow> Some st'
      | Some (st', Some results, rs') \<Rightarrow>
          if results = [] \<or> length results < batch_size then Some st'
          else page_loop st' rs')"
  by pat_completeness auto

termination
  by (relation "measure (\<lambda>(st, rs). length rs)") (auto dest: retry_loop_consumes)

declare page_loop.simps [simp del]

text \<open>
  \<open>str.lower\<close> on the ASCII letters; it turns no other character into a letter of
  \<open>yes\<close>.
\<close>

definition lower_char :: "char \<Rightarrow> char" where
  "lower_char c =
     (case map_of (zip ''ABCDEFGHIJKLMNOPQRSTUVWXYZ'' ''abcdefghijklmnopqrstuvwxyz'') c of
        None \<Rightarrow> c
      | Some l \<Rightarrow> l)"

definition lower :: "string \<Rightarrow> string" where
  "lower s = map lower_char s"

datatype run = Declined | Finished download_state

text \<open>
  The run, from the content of the raw collection, the operator's answer to the prompt
  (asked only when the collection is not empty) and the responses of the environment.
  The index creation after the loop does not change the documents and is left out.
\<close>

definition download_2024_crime_data_robust ::
  "raw_record list \<Rightarrow> string \<Rightarrow> response list \<Rightarrow> run option" where
  "download_2024_crime_data_robust coll response rs =
     (let existing_count = length coll
      in if existing_count > 0 \<and> lower response \<noteq> ''yes'' then Some Declined
         else (let offset0 = (if existing_count > 0 then existing_count else 0)
               in map_option Finished
                    (page_loop \<lparr>collection = coll, offset = offset0,
                                total_imported = existing_count, requested = [],
                                slept = []\<rparr> rs)))"

subsection \<open>Auxiliary notions\<close>


definition after_page :: "download_state \<Rightarrow> nat \<Rightarrow> nat list \<Rightarrow> raw_record list \<Rightarrow> download_state" where
  "after_page st k delays results =
     st\<lparr>collection := collection st @ results,
        offset := offset st + length results,
        total_imported := total_imported st + length results,
        requested := requested st @ replicate (k + 1) (offset st),
        slept := slept st @ delays @ (if length results < batch_size then [] else [1])\<rparr>"

text \<open>The cursor and the running total move together, and never back.\<close>

definition advanced :: "download_state \<Rightarrow> download_state \<Rightarrow> bool" where
  "advanced st st' \<longleftrightarrow>
     offset st \<le> offset st' \<and>
     total_imported st' + offset st = total_imported st + offset st'"

text \<open>A response in which the insert of a page raises.\<close>

fun insert_raises :: "response \<Rightarrow> bool" where
  "insert_raises (GetOk results (InsertRaised k)) = (results \<noteq> [])"
| "insert_raises _ = False"

section \<open>Sample data\<close>

text \<open>
  A raw document with the seven required fields, and the values of \<open>float\<close> on the
  strings the examples use: on \<open>40.7\<close>, \<open>-73.8\<close>, \<open>99.9\<close>, \<open>40.4\<close> and \<open>-74.4\<close> the
  double nearest to the decimal; the empty string and \<open>abc\<close> are not numbers.
\<close>

definition mk_record ::
  "string \<Rightarrow> string \<Rightarrow> string \<Rightarrow> string \<Rightarrow> string \<Rightarrow> string \<Rightarrow> string \<Rightarrow> raw_record" where
  "mk_record i d b la lo ofn law =
     map_of [(''cmplnt_num'', PStr i), (''cmplnt_fr_dt'', PStr d), (''boro_nm'', PStr b),
             (''latitude'', PStr la), (''longitude'', PStr lo), (''ofns_desc'', PStr ofn),
             (''law_cat_cd'', PStr law)]"

definition sample_float :: "string \<Rightarrow> pyfloat option" where
  "sample_float s =
     map_of [(''40.7'', Finite (double 2864007888030925 46)),
             (''-73.8'', Finite (double (- 5193213320311603) 46)),
             (''99.9'', Finite (double 3514918771674317 45)),
             (''40.4'', Finite (double 5685794529555251 47)),
             (''-74.4'', Finite (double (- 2617717283409101) 45))] s"

definition seen7 :: clean_state where
  "seen7 =
     \<lparr>clean_collection = [], seen_ids = {PStr ''7''}, records_to_insert = [],
      skipped_missing = 0, skipped_invalid_coords = 0, skipped_duplicate = 0,
      processed = 0\<rparr>"

definition rec_missing_dup_coord :: raw_record where
  "rec_missing_dup_coord =
     mk_record ''7'' ''2024-01-01'' ''(null)'' ''99.9'' ''-73.8'' ''THEFT'' ''FELONY''"

definition rec_absent_dup_coord :: raw_record where
  "rec_absent_dup_coord =
     (mk_record ''7'' ''2024-01-01'' ''QUEENS'' ''99.9'' ''-73.8'' ''THEFT'' ''FELONY'')
       (''ofns_desc'' := None)"

definition rec_dup_coord :: raw_record where
  "rec_dup_coord =
     mk_record ''7'' ''2024-01-01'' ''QUEENS'' ''99.9'' ''-73.8'' ''THEFT'' ''FELONY''"

definition rec_coord :: raw_record where
  "rec_coord =
     mk_record ''9'' ''2024-01-01'' ''QUEENS'' ''99.9'' ''-73.8'' ''THEFT'' ''FELONY''"

definition rec_valid :: raw_record where
  "rec_valid =
     mk_record ''8'' ''2024-01-01'' ''QUEENS'' ''40.7'' ''-73.8'' ''THEFT'' ''FELONY''"

definition rec_empty_offence :: raw_record where
  "rec_empty_offence =
     mk_record ''1'' ''2024-01-01'' ''QUEENS'' ''40.7'' ''-73.8'' [] ''FELONY''"

definition rec7_first :: raw_record where
  "rec7_first = mk_record ''7'' ''2024-01-01'' ''QUEENS'' ''40.7'' ''-73.8'' ''THEFT'' ''FELONY''"

definition rec7_second :: raw_record where
  "rec7_second =
     mk_record ''7'' ''2024-02-02'' ''BRONX'' ''40.7'' ''-73.8'' ''ASSAULT'' ''MISDEMEANOR''"

definition rec_corner :: raw_record where
  "rec_corner = mk_record ''5'' ''2024-01-01'' ''QUEENS'' ''40.4'' ''-74.4'' ''THEFT'' ''FELONY''"

definition rec_empty_lat :: raw_record where
  "rec_empty_lat = mk_record ''1'' ''2024-01-01'' ''QUEENS'' [] ''-73.8'' ''THEFT'' ''FELONY''"


section \<open>Conservation of records\<close>

lemmas sample_defs =
  mk_record_def sample_float_def seen7_def get_def get_default_def required_fields_def
  missing_check_def duplicate_check_def coordinate_check_def in_nyc_box_def cleaned_def
  double_def lit_40_4_def lit_41_0_def lit_neg_74_4_def lit_neg_73_6_def

lemmas run_defs =
  clean_pass_def process_record_def accept_record_def initial_state_def insert_many_def
  delete_many_def py_all_def final_count_def Let_def

lemma accepted_accept_record:
  "accepted (accept_record st record lat lon) =
     accepted st @
       [\<lparr>cmplnt_num = get record ''cmplnt_num'',
         cmplnt_fr_dt = get record ''cmplnt_fr_dt'',
         cmplnt_fr_tm = get_default record ''cmplnt_fr_tm'' (PStr ''00:00:00''),
         boro_nm = get record ''boro_nm'',
         latitude = lat,
         longitude = lon,
         ofns_desc = get record ''ofns_desc'',
         law_cat_cd = get record ''law_cat_cd''\<rparr>]"
  by (simp add: accepted_def accept_record_def Let_def insert_many_def)

lemma counters_accept_record:
  "skipped_missing (accept_record st record lat lon) = skipped_missing st"
  "skipped_invalid_coords (accept_record st record lat lon) = skipped_invalid_coords st"
  "skipped_duplicate (accept_record st record lat lon) = skipped_duplicate st"
  "processed (accept_record st record lat lon) = processed st"
  "seen_ids (accept_record st record lat lon) = insert (get record ''cmplnt_num'') (seen_ids st)"
  by (simp_all add: accept_record_def Let_def)

lemma accepted_simps:
  "accepted (st\<lparr>processed := p\<rparr>) = accepted st"
  "accepted (st\<lparr>skipped_missing := a\<rparr>) = accepted st"
  "accepted (st\<lparr>skipped_invalid_coords := b\<rparr>) = accepted st"
  "accepted (st\<lparr>skipped_duplicate := c\<rparr>) = accepted st"
  by (simp_all add: accepted_def)

lemma initial_simps:
  "accepted (initial_state old) = []" "seen_ids (initial_state old) = {}"
  "skipped_duplicate (initial_state old) = 0" "skipped_missing (initial_state old) = 0"
  "skipped_invalid_coords (initial_state old) = 0" "processed (initial_state old) = 0"
  by (simp_all add: initial_state_def accepted_def delete_many_def)

lemma balanced_process_record:
  "balanced st \<Longrightarrow> balanced (process_record str2float st record)"
  by (simp add: balanced_def process_record_def Let_def accepted_simps
        accepted_accept_record counters_accept_record split: sum.splits)

lemma balanced_foldl:
  "balanced st \<Longrightarrow> balanced (foldl (process_record str2float) st records)"
  by (induction records arbitrary: st) (simp_all add: balanced_process_record)

lemma processed_process_record:
  "processed (process_record str2float st record) = processed st + 1"
  by (simp add: process_record_def Let_def counters_accept_record split: sum.splits)

lemma processed_foldl:
  "processed (foldl (process_record str2float) st records) = processed st + length records"
  by (induction records arbitrary: st) (simp_all add: processed_process_record)

lemma clean_collection_foldl_initial:
  "clean_collection (clean_pass str2float source old_clean) =
     accepted (foldl (process_record str2float) (initial_state old_clean) source)"
  by (simp add: clean_pass_def Let_def accepted_def insert_many_def)

lemma clean_pass_counters:
  "processed (clean_pass str2float source old_clean) =
     processed (foldl (process_record str2float) (initial_state old_clean) source)"
  "skipped_missing (clean_pass str2float source old_clean) =
     skipped_missing (foldl (process_record str2float) (initial_state old_clean) source)"
  "skipped_invalid_coords (clean_pass str2float source old_clean) =
     skipped_invalid_coords (foldl (process_record str2float) (initial_state old_clean) source)"
  "skipped_duplicate (clean_pass str2float source old_clean) =
     skipped_duplicate (foldl (process_record str2float) (initial_state old_clean) source)"
  by (simp_all add: clean_pass_def Let_def)

lemma balanced_initial: "balanced (initial_state old_clean)"
  by (simp add: balanced_def initial_state_def accepted_def delete_many_def)

text \<open>
  C1. After a full clean pass over any raw collection, the number of records examined
  is the number of raw records, and it equals the number of records in the clean
  collection plus the three rejection counters. Every iteration of the loop adds one to
  exactly one of these four numbers, so a rejected record is counted under one reason.
\<close>

theorem conservation_law:
  "processed (clean_pass str2float source old_clean) = length source \<and>
   processed (clean_pass str2float source old_clean) =
     final_count (clean_pass str2float source old_clean)
       + skipped_missing (clean_pass str2float source old_clean)
       + skipped_invalid_coords (clean_pass str2float source old_clean)
       + skipped_duplicate (clean_pass str2float source old_clean) \<and>
   (let st' = process_record str2float st record in
      [length (accepted st') - length (accepted st),
       skipped_missing st' - skipped_missing st,
       skipped_invalid_coords st' - skipped_invalid_coords st,
       skipped_duplicate st' - skipped_duplicate st]
      \<in> {[1, 0, 0, 0], [0, 1, 0, 0], [0, 0, 1, 0], [0, 0, 0, 1]} \<and>
      length (accepted st) \<le> length (accepted st') \<and>
      skipped_missing st \<le> skipped_missing st' \<and>
      skipped_invalid_coords st \<le> skipped_invalid_coords st' \<and>
      skipped_duplicate st \<le> skipped_duplicate st')"
proof -
  let ?f = "foldl (process_record str2float) (initial_state old_clean) source"
  have "processed ?f = length source"
    by (simp add: processed_foldl initial_state_def)
  moreover have "balanced ?f"
    by (rule balanced_foldl [OF balanced_initial])
  moreover have "final_count (clean_pass str2float source old_clean) = length (accepted ?f)"
    by (simp add: final_count_def clean_collection_foldl_initial)
  moreover have
    "let st' = process_record str2float st record in
      [length (accepted st') - length (accepted st),
       skipped_missing st' - skipped_missing st,
       skipped_invalid_coords st' - skipped_invalid_coords st,
       skipped_duplicate st' - skipped_duplicate st]
      \<in> {[1, 0, 0, 0], [0, 1, 0, 0], [0, 0, 1, 0], [0, 0, 0, 1]} \<and>
      length (accepted st) \<le> length (accepted st') \<and>
      skipped_missing st \<le> skipped_missing st' \<and>
      skipped_invalid_coords st \<le> skipped_invalid_coords st' \<and>
      skipped_duplicate st \<le> skipped_duplicate st'"
    by (simp add: process_record_def Let_def accepted_simps
          accepted_accept_record counters_accept_record split: sum.splits)
  ultimately show ?thesis
    by (simp add: clean_pass_counters balanced_def)
qed

theorem conservation_law_witness:
  "processed (clean_pass sample_float [rec_valid, rec_empty_offence, rec_coord, rec_valid] []) = 4 \<and>
   final_count (clean_pass sample_float [rec_valid, rec_empty_offence, rec_coord, rec_valid] []) = 1 \<and>
   skipped_missing (clean_pass sample_float [rec_valid, rec_empty_offence, rec_coord, rec_valid] []) = 1 \<and>
   skipped_invalid_coords
     (clean_pass sample_float [rec_valid, rec_empty_offence, rec_coord, rec_valid] []) = 1 \<and>
   skipped_duplicate (clean_pass sample_float [rec_valid, rec_empty_offence, rec_coord, rec_valid] []) = 1"
proof -
  let ?st = "clean_pass sample_float [rec_valid, rec_empty_offence, rec_coord, rec_valid] []"
  have c: "skipped_missing ?st = 1" "skipped_invalid_coords ?st = 1" "skipped_duplicate ?st = 1"
    by (simp_all add: run_defs rec_valid_def rec_empty_offence_def rec_coord_def sample_defs)
  show ?thesis
    using c conservation_law
      [of sample_float "[rec_valid, rec_empty_offence, rec_coord, rec_valid]" "[]" seen7 rec_valid]
    by simp
qed

section \<open>Order of the checks\<close>

lemma missing_check_iff:
  "missing_check record \<longleftrightarrow>
     \<not> py_all [get record ''cmplnt_num'', get record ''cmplnt_fr_dt'', get record ''boro_nm'',
       get record ''latitude'', get record ''longitude'', get record ''ofns_desc'',
       get record ''law_cat_cd''] \<or>
     get record ''boro_nm'' = PStr ''(null)'' \<or> get record ''boro_nm'' = PStr []"
  by (auto simp add: missing_check_def required_fields_def py_all_def)

lemma process_record_eq:
  "process_record str2float st record =
     (if missing_check record
      then st\<lparr>processed := processed st + 1, skipped_missing := skipped_missing st + 1\<rparr>
      else if duplicate_check st record
      then st\<lparr>processed := processed st + 1, skipped_duplicate := skipped_duplicate st + 1\<rparr>
      else if coordinate_check str2float record
      then st\<lparr>processed := processed st + 1,
              skipped_invalid_coords := skipped_invalid_coords st + 1\<rparr>
      else accept_record (st\<lparr>processed := processed st + 1\<rparr>) record
             (latitude (cleaned str2float record)) (longitude (cleaned str2float record)))"
  unfolding missing_check_iff
  by (simp add: process_record_def Let_def duplicate_check_def coordinate_check_def cleaned_def
        split: sum.splits)

lemma accepted_accept_cleaned:
  "accepted (accept_record st record (latitude (cleaned str2float record))
       (longitude (cleaned str2float record))) = accepted st @ [cleaned str2float record]"
  by (simp add: accepted_accept_record cleaned_def)

lemma cmplnt_num_cleaned: "cmplnt_num (cleaned str2float record) = get record ''cmplnt_num''"
  by (simp add: cleaned_def)

lemma absent_field_missing:
  "k \<in> set required_fields \<Longrightarrow> \<not> truthy (get record k) \<Longrightarrow> missing_check record"
  by (auto simp add: missing_check_def list_ex_iff)

text \<open>
  C2. The loop body applies the missing-field check first, the duplicate check second and
  the coordinate check third, and the first check that fires decides the one counter that
  is raised, whatever the later checks would say. In particular a record with a required
  field absent raises \<open>skipped_missing\<close> and neither of the other two counters.
\<close>

theorem rejection_order:
  "(missing_check record \<longrightarrow>
      process_record str2float st record =
        st\<lparr>processed := processed st + 1, skipped_missing := skipped_missing st + 1\<rparr>) \<and>
   (\<not> missing_check record \<and> duplicate_check st record \<longrightarrow>
      process_record str2float st record =
        st\<lparr>processed := processed st + 1, skipped_duplicate := skipped_duplicate st + 1\<rparr>) \<and>
   (\<not> missing_check record \<and> \<not> duplicate_check st record \<and> coordinate_check str2float record \<longrightarrow>
      process_record str2float st record =
        st\<lparr>processed := processed st + 1,
           skipped_invalid_coords := skipped_invalid_coords st + 1\<rparr>) \<and>
   (\<not> missing_check record \<and> \<not> duplicate_check st record \<and> \<not> coordinate_check str2float record \<longrightarrow>
      accepted (process_record str2float st record) = accepted st @ [cleaned str2float record] \<and>
      skipped_missing (process_record str2float st record) = skipped_missing st \<and>
      skipped_duplicate (process_record str2float st record) = skipped_duplicate st \<and>
      skipped_invalid_coords (process_record str2float st record) = skipped_invalid_coords st) \<and>
   (k \<in> set required_fields \<and> record k = None \<longrightarrow>
      skipped_missing (process_record str2float st record) = skipped_missing st + 1 \<and>
      skipped_duplicate (process_record str2float st record) = skipped_duplicate st \<and>
      skipped_invalid_coords (process_record str2float st record) = skipped_invalid_coords st)"
proof -
  have "missing_check record" if "k \<in> set required_fields" "record k = None"
    using that by (intro absent_field_missing [of k]) (simp_all add: get_def)
  then show ?thesis
    by (auto simp add: process_record_eq accepted_accept_cleaned counters_accept_record
          accepted_simps)
qed

theorem rejection_order_witness:
  "missing_check rec_missing_dup_coord \<and> duplicate_check seen7 rec_missing_dup_coord \<and>
   coordinate_check sample_float rec_missing_dup_coord \<and>
   process_record sample_float seen7 rec_missing_dup_coord =
     seen7\<lparr>processed := 1, skipped_missing := 1\<rparr> \<and>
   \<not> missing_check rec_dup_coord \<and> duplicate_check seen7 rec_dup_coord \<and>
   coordinate_check sample_float rec_dup_coord \<and>
   process_record sample_float seen7 rec_dup_coord =
     seen7\<lparr>processed := 1, skipped_duplicate := 1\<rparr> \<and>
   \<not> missing_check rec_coord \<and> \<not> duplicate_check seen7 rec_coord \<and>
   coordinate_check sample_float rec_coord \<and>
   process_record sample_float seen7 rec_coord =
     seen7\<lparr>processed := 1, skipped_invalid_coords := 1\<rparr> \<and>
   \<not> missing_check rec_valid \<and> \<not> duplicate_check seen7 rec_valid \<and>
   \<not> coordinate_check sample_float rec_valid \<and>
   accepted (process_record sample_float seen7 rec_valid) = [cleaned sample_float rec_valid] \<and>
   ''ofns_desc'' \<in> set required_fields \<and> rec_absent_dup_coord ''ofns_desc'' = None \<and>
   duplicate_check seen7 rec_absent_dup_coord \<and>
   coordinate_check sample_float rec_absent_dup_coord \<and>
   skipped_missing (process_record sample_float seen7 rec_absent_dup_coord) = 1 \<and>
   skipped_duplicate (process_record sample_float seen7 rec_absent_dup_coord) = 0 \<and>
   skipped_invalid_coords (process_record sample_float seen7 rec_absent_dup_coord) = 0"
proof -
  have m: "missing_check rec_missing_dup_coord" "duplicate_check seen7 rec_missing_dup_coord"
    "coordinate_check sample_float rec_missing_dup_coord"
    by (simp_all add: rec_missing_dup_coord_def sample_defs)
  have d: "\<not> missing_check rec_dup_coord" "duplicate_check seen7 rec_dup_coord"
    "coordinate_check sample_float rec_dup_coord"
    by (simp_all add: rec_dup_coord_def sample_defs)
  have c: "\<not> missing_check rec_coord" "\<not> duplicate_check seen7 rec_coord"
    "coordinate_check sample_float rec_coord"
    by (simp_all add: rec_coord_def sample_defs)
  have v: "\<not> missing_check rec_valid" "\<not> duplicate_check seen7 rec_valid"
    "\<not> coordinate_check sample_float rec_valid"
    by (simp_all add: rec_valid_def sample_defs)
  have a: "''ofns_desc'' \<in> set required_fields" "rec_absent_dup_coord ''ofns_desc'' = None"
    "duplicate_check seen7 rec_absent_dup_coord"
    "coordinate_check sample_float rec_absent_dup_coord"
    by (simp_all add: rec_absent_dup_coord_def sample_defs)
  have z: "processed seen7 = 0" "skipped_missing seen7 = 0" "skipped_duplicate seen7 = 0"
    "skipped_invalid_coords seen7 = 0" "accepted seen7 = []"
    by (simp_all add: seen7_def accepted_def)
  show ?thesis
    using m d c v a
      rejection_order [of rec_missing_dup_coord sample_float seen7]
      rejection_order [of rec_dup_coord sample_float seen7]
      rejection_order [of rec_coord sample_float seen7]
      rejection_order [of rec_valid sample_float seen7]
      rejection_order [of rec_absent_dup_coord sample_float seen7 "''ofns_desc''"]
    by (simp add: z)
qed

text \<open>
  C10. A record in which one of the seven required fields is the empty string (or null,
  or absent) is rejected as missing: the presence check is a truth test on the field
  values, and the empty string is false. The other counters and the seen identifiers
  stay as they were.
\<close>

theorem empty_field_is_missing:
  assumes "k \<in> set required_fields"
    and "record k = Some (PStr []) \<or> record k = Some PNone \<or> record k = None"
  shows "process_record str2float st record =
           st\<lparr>processed := processed st + 1, skipped_missing := skipped_missing st + 1\<rparr>"
proof -
  have "\<not> truthy (get record k)"
    using assms(2) by (auto simp add: get_def)
  then have "missing_check record"
    using assms(1) by (rule absent_field_missing [rotated])
  then show ?thesis
    by (simp add: process_record_eq)
qed

theorem empty_field_is_missing_witness:
  "''ofns_desc'' \<in> set required_fields \<and>
   rec_empty_offence ''ofns_desc'' = Some (PStr []) \<and>
   process_record sample_float seen7 rec_empty_offence =
     seen7\<lparr>processed := 1, skipped_missing := 1\<rparr>"
proof -
  have k: "''ofns_desc'' \<in> set required_fields"
    by (simp add: required_fields_def)
  have e: "rec_empty_offence ''ofns_desc'' = Some (PStr [])"
    by (simp add: rec_empty_offence_def mk_record_def)
  have z: "processed seen7 = 0" "skipped_missing seen7 = 0"
    by (simp_all add: seen7_def)
  show ?thesis
    using k e empty_field_is_missing [of "''ofns_desc''" rec_empty_offence sample_float seen7]
    by (simp add: z)
qed

section \<open>Uniqueness of identifiers\<close>

lemma ids_tracked_process_record:
  "ids_tracked st \<Longrightarrow> ids_tracked (process_record str2float st record)"
  by (auto simp add: ids_tracked_def process_record_eq accepted_simps accepted_accept_cleaned
        counters_accept_record cmplnt_num_cleaned duplicate_check_def)

lemma ids_tracked_foldl:
  "ids_tracked st \<Longrightarrow> ids_tracked (foldl (process_record str2float) st records)"
  by (induction records arbitrary: st) (simp_all add: ids_tracked_process_record)

text \<open>
  C3. After a clean pass over any raw collection, whatever the clean collection held
  before, the identifiers of the records in the clean collection are pairwise different.
\<close>

theorem clean_ids_unique:
  "distinct (map cmplnt_num (clean_collection (clean_pass str2float source old_clean)))"
proof -
  have "ids_tracked (initial_state old_clean)"
    by (simp add: ids_tracked_def initial_simps)
  then have "ids_tracked (foldl (process_record str2float) (initial_state old_clean) source)"
    by (rule ids_tracked_foldl)
  then show ?thesis
    by (simp add: clean_collection_foldl_initial ids_tracked_def)
qed

theorem clean_ids_unique_witness:
  "clean_collection (clean_pass sample_float [rec7_first, rec7_second, rec_valid] []) =
     [cleaned sample_float rec7_first, cleaned sample_float rec_valid] \<and>
   map cmplnt_num (clean_collection (clean_pass sample_float [rec7_first, rec7_second, rec_valid] [])) =
     [PStr ''7'', PStr ''8''] \<and>
   distinct [PStr ''7'', PStr ''8'']"
proof -
  have c: "clean_collection (clean_pass sample_float [rec7_first, rec7_second, rec_valid] []) =
     [cleaned sample_float rec7_first, cleaned sample_float rec_valid]"
    by (simp add: run_defs rec_valid_def rec7_first_def rec7_second_def sample_defs)
  have i: "cmplnt_num (cleaned sample_float rec7_first) = PStr ''7''"
    "cmplnt_num (cleaned sample_float rec_valid) = PStr ''8''"
    by (simp_all add: rec_valid_def rec7_first_def sample_defs)
  show ?thesis
    using clean_ids_unique [of sample_float "[rec7_first, rec7_second, rec_valid]" "[]"]
    by (simp add: c i)
qed

section \<open>Duplicates\<close>

lemma seen_ids_process_record:
  "seen_ids (process_record str2float st record) =
     (if missing_check record \<or> duplicate_check st record \<or> coordinate_check str2float record
      then seen_ids st else insert (get record ''cmplnt_num'') (seen_ids st))"
  by (simp add: process_record_eq counters_accept_record)

lemma seen_ids_mono:
  "x \<in> seen_ids st \<Longrightarrow> x \<in> seen_ids (foldl (process_record str2float) st records)"
  by (induction records arbitrary: st) (simp_all add: seen_ids_process_record)

lemma ids_exact_process_record:
  "ids_exact st \<Longrightarrow> ids_exact (process_record str2float st record)"
  by (simp add: ids_exact_def process_record_eq accepted_simps accepted_accept_cleaned
        counters_accept_record cmplnt_num_cleaned)

lemma ids_exact_foldl:
  "ids_exact st \<Longrightarrow> ids_exact (foldl (process_record str2float) st records)"
  by (induction records arbitrary: st) (simp_all add: ids_exact_process_record)

lemma seen_ids_clean_pass:
  "seen_ids (clean_pass str2float source old_clean) =
     set (map cmplnt_num (clean_collection (clean_pass str2float source old_clean)))"
proof -
  have "ids_exact (initial_state old_clean)"
    by (simp add: ids_exact_def initial_simps)
  then have "ids_exact (foldl (process_record str2float) (initial_state old_clean) source)"
    by (rule ids_exact_foldl)
  then show ?thesis
    unfolding clean_collection_foldl_initial
    by (simp add: ids_exact_def clean_pass_def Let_def)
qed


lemma seen_ids_clean_pass_foldl:
  "seen_ids (clean_pass str2float source old_clean) =
     seen_ids (foldl (process_record str2float) (initial_state old_clean) source)"
  by (simp add: clean_pass_def Let_def)

lemma accepted_mono_step:
  "c \<in> set (accepted st) \<Longrightarrow> c \<in> set (accepted (process_record str2float st record))"
  by (simp add: process_record_eq accepted_simps accepted_accept_cleaned)

lemma accepted_mono:
  "c \<in> set (accepted st) \<Longrightarrow> c \<in> set (accepted (foldl (process_record str2float) st records))"
  by (induction records arbitrary: st) (simp_all add: accepted_mono_step)

lemma filter_distinct_key:
  "distinct (map f xs) \<Longrightarrow> x \<in> set xs \<Longrightarrow> filter (\<lambda>c. f c = f x) xs = [x]"
proof (induction xs)
  case Nil
  then show ?case by simp
next
  case (Cons y ys)
  show ?case
  proof (cases "y = x")
    case True
    with Cons.prems(1) have "f x \<notin> f ` set ys"
      by simp
    then have "\<forall>c \<in> set ys. f c \<noteq> f x"
      by (metis imageI)
    then have "filter (\<lambda>c. f c = f x) ys = []"
      by (simp add: filter_empty_conv)
    with True show ?thesis by simp
  next
    case False
    with Cons.prems have "x \<in> set ys" and "f y \<noteq> f x"
      by auto
    with Cons show ?thesis by simp
  qed
qed

text \<open>
  C9. The duplicate check looks the identifier up among those accepted so far in this
  pass. Take a raw collection in storage order with two records that pass the other
  checks and carry the same identifier, where the identifier was not accepted from the
  records before the first of them. The pass accepts the first: it appends its clean
  record to the clean collection and adds its identifier to the seen identifiers. The
  pass rejects the second as duplicate, whatever records come in between: it raises
  \<open>skipped_duplicate\<close> by one and leaves the clean collection, the other counters and the
  seen identifiers as they were. At the end of the pass, whatever records follow, the
  clean record of the first is the only record of the clean collection with this
  identifier. The seen identifiers grow by the identifier of a record exactly when that
  record is accepted, and at the end of a pass they are the identifiers of the clean
  collection.
\<close>

theorem duplicate_first_wins:
  assumes "\<not> missing_check r1" and "\<not> coordinate_check str2float r1"
    and "\<not> missing_check r2" and "\<not> coordinate_check str2float r2"
    and "get r2 ''cmplnt_num'' = get r1 ''cmplnt_num''"
    and "get r1 ''cmplnt_num'' \<notin> seen_ids (clean_pass str2float earlier old_clean)"
  shows "clean_collection (clean_pass str2float (earlier @ [r1]) old_clean) =
           clean_collection (clean_pass str2float earlier old_clean) @ [cleaned str2float r1] \<and>
         skipped_duplicate (clean_pass str2float (earlier @ [r1]) old_clean) =
           skipped_duplicate (clean_pass str2float earlier old_clean) \<and>
         seen_ids (clean_pass str2float (earlier @ [r1]) old_clean) =
           insert (get r1 ''cmplnt_num'') (seen_ids (clean_pass str2float earlier old_clean)) \<and>
         clean_collection (clean_pass str2float (earlier @ r1 # between @ [r2]) old_clean) =
           clean_collection (clean_pass str2float (earlier @ r1 # between) old_clean) \<and>
         skipped_duplicate (clean_pass str2float (earlier @ r1 # between @ [r2]) old_clean) =
           skipped_duplicate (clean_pass str2float (earlier @ r1 # between) old_clean) + 1 \<and>
         skipped_missing (clean_pass str2float (earlier @ r1 # between @ [r2]) old_clean) =
           skipped_missing (clean_pass str2float (earlier @ r1 # between) old_clean) \<and>
         skipped_invalid_coords (clean_pass str2float (earlier @ r1 # between @ [r2]) old_clean) =
           skipped_invalid_coords (clean_pass str2float (earlier @ r1 # between) old_clean) \<and>
         seen_ids (clean_pass str2float (earlier @ r1 # between @ [r2]) old_clean) =
           seen_ids (clean_pass str2float (earlier @ r1 # between) old_clean) \<and>
         filter (\<lambda>c. cmplnt_num c = get r1 ''cmplnt_num'')
           (clean_collection
              (clean_pass str2float (earlier @ r1 # between @ r2 # later) old_clean)) =
           [cleaned str2float r1] \<and>
         (\<forall>st' r. seen_ids (process_record str2float st' r) =
            (if missing_check r \<or> duplicate_check st' r \<or> coordinate_check str2float r
             then seen_ids st' else insert (get r ''cmplnt_num'') (seen_ids st'))) \<and>
         seen_ids (clean_pass str2float source old_clean) =
           set (map cmplnt_num (clean_collection (clean_pass str2float source old_clean)))"
proof -
  let ?P = "process_record str2float"
  let ?st = "foldl ?P (initial_state old_clean) earlier"
  let ?st1 = "?P ?st r1"
  let ?st2 = "foldl ?P ?st1 between"
  let ?end = "foldl ?P (?P ?st2 r2) later"
  have nd: "\<not> duplicate_check ?st r1"
    using assms(6) by (simp add: duplicate_check_def seen_ids_clean_pass_foldl)
  have first: "accepted ?st1 = accepted ?st @ [cleaned str2float r1]"
    "skipped_duplicate ?st1 = skipped_duplicate ?st"
    "seen_ids ?st1 = insert (get r1 ''cmplnt_num'') (seen_ids ?st)"
    using assms(1,2) nd
    by (simp_all add: process_record_eq accepted_accept_cleaned counters_accept_record
          accepted_simps)
  have "get r2 ''cmplnt_num'' \<in> seen_ids ?st2"
    unfolding assms(5) by (rule seen_ids_mono) (simp add: first(3))
  then have "duplicate_check ?st2 r2"
    by (simp add: duplicate_check_def)
  then have second: "?P ?st2 r2 =
      ?st2\<lparr>processed := processed ?st2 + 1, skipped_duplicate := skipped_duplicate ?st2 + 1\<rparr>"
    using assms(3) by (simp add: process_record_eq)
  have "cleaned str2float r1 \<in> set (accepted ?st1)"
    by (simp add: first(1))
  then have "cleaned str2float r1 \<in> set (accepted ?st2)"
    by (rule accepted_mono)
  then have "cleaned str2float r1 \<in> set (accepted (?P ?st2 r2))"
    by (rule accepted_mono_step)
  then have mem: "cleaned str2float r1 \<in> set (accepted ?end)"
    by (rule accepted_mono)
  have "ids_tracked (initial_state old_clean)"
    by (simp add: ids_tracked_def initial_simps)
  then have "ids_tracked
      (foldl ?P (initial_state old_clean) (earlier @ r1 # between @ r2 # later))"
    by (rule ids_tracked_foldl)
  then have "distinct (map cmplnt_num (accepted ?end))"
    by (simp add: ids_tracked_def)
  from filter_distinct_key [OF this mem]
  have only: "filter (\<lambda>c. cmplnt_num c = get r1 ''cmplnt_num'') (accepted ?end) =
      [cleaned str2float r1]"
    by (simp add: cmplnt_num_cleaned)
  show ?thesis
    using first only seen_ids_clean_pass [of str2float source old_clean]
    by (simp add: clean_collection_foldl_initial clean_pass_counters seen_ids_clean_pass_foldl
          second accepted_simps seen_ids_process_record)
qed

theorem duplicate_first_wins_witness:
  "\<not> missing_check rec7_first \<and> \<not> coordinate_check sample_float rec7_first \<and>
   \<not> missing_check rec7_second \<and> \<not> coordinate_check sample_float rec7_second \<and>
   get rec7_second ''cmplnt_num'' = get rec7_first ''cmplnt_num'' \<and>
   get rec7_first ''cmplnt_num'' \<notin> seen_ids (clean_pass sample_float [rec_dup_coord] []) \<and>
   clean_collection
     (clean_pass sample_float [rec_dup_coord, rec7_first, rec_valid, rec7_second, rec_corner] []) =
     [cleaned sample_float rec7_first, cleaned sample_float rec_valid,
      cleaned sample_float rec_corner] \<and>
   skipped_duplicate
     (clean_pass sample_float [rec_dup_coord, rec7_first, rec_valid, rec7_second, rec_corner] []) = 1 \<and>
   skipped_invalid_coords
     (clean_pass sample_float [rec_dup_coord, rec7_first, rec_valid, rec7_second, rec_corner] []) = 1 \<and>
   filter (\<lambda>c. cmplnt_num c = get rec7_first ''cmplnt_num'')
     (clean_collection
        (clean_pass sample_float [rec_dup_coord, rec7_first, rec_valid, rec7_second, rec_corner] [])) =
     [cleaned sample_float rec7_first] \<and>
   cleaned sample_float rec7_second \<noteq> cleaned sample_float rec7_first"
proof -
  have h: "\<not> missing_check rec7_first" "\<not> coordinate_check sample_float rec7_first"
    "\<not> missing_check rec7_second" "\<not> coordinate_check sample_float rec7_second"
    "get rec7_second ''cmplnt_num'' = get rec7_first ''cmplnt_num''"
    "get rec7_first ''cmplnt_num'' \<notin> seen_ids (clean_pass sample_float [rec_dup_coord] [])"
    by (simp_all add: run_defs rec7_first_def rec7_second_def rec_dup_coord_def sample_defs)
  let ?run = "clean_pass sample_float
      [rec_dup_coord, rec7_first, rec_valid, rec7_second, rec_corner] []"
  have c: "clean_collection ?run =
      [cleaned sample_float rec7_first, cleaned sample_float rec_valid,
       cleaned sample_float rec_corner]"
    "skipped_duplicate ?run = 1" "skipped_invalid_coords ?run = 1"
    by (simp_all add: run_defs rec7_first_def rec7_second_def rec_dup_coord_def rec_valid_def
          rec_corner_def sample_defs)
  have n: "cleaned sample_float rec7_second \<noteq> cleaned sample_float rec7_first"
    by (simp add: rec7_first_def rec7_second_def cleaned_def mk_record_def get_def)
  show ?thesis
    using h c n
      duplicate_first_wins [OF h, where between = "[rec_valid]" and later = "[rec_corner]"]
    by simp
qed

section \<open>Coordinates\<close>

lemma in_nyc_box_cleaned:
  "\<not> coordinate_check str2float record \<Longrightarrow>
     in_nyc_box (latitude (cleaned str2float record)) (longitude (cleaned str2float record))"
  by (simp add: coordinate_check_def cleaned_def split: sum.splits)

lemma boxed_process_record: "boxed st \<Longrightarrow> boxed (process_record str2float st record)"
  by (simp add: boxed_def process_record_eq accepted_simps accepted_accept_cleaned
        in_nyc_box_cleaned)

lemma boxed_foldl: "boxed st \<Longrightarrow> boxed (foldl (process_record str2float) st records)"
  by (induction records arbitrary: st) (simp_all add: boxed_process_record)

lemma literals_nearest:
  "lit_40_4 < 40.4 \<and> 40.4 - lit_40_4 \<le> 1 / 2 ^ 48"
  "lit_41_0 = 41"
  "lit_neg_74_4 < - 74.4 \<and> - 74.4 - lit_neg_74_4 \<le> 1 / 2 ^ 47"
  "- 73.6 < lit_neg_73_6 \<and> lit_neg_73_6 - (- 73.6) \<le> 1 / 2 ^ 47"
  by (simp_all add: lit_40_4_def lit_41_0_def lit_neg_74_4_def lit_neg_73_6_def double_def)

lemma in_nyc_box_finite:
  assumes "in_nyc_box lat lon"
  shows "\<exists>a b. lat = Finite a \<and> lon = Finite b \<and> lit_40_4 \<le> a \<and> a \<le> lit_41_0 \<and>
           lit_neg_74_4 \<le> b \<and> b \<le> lit_neg_73_6"
  using assms by (cases lat; cases lon) (simp_all add: in_nyc_box_def)

text \<open>
  C4 (as amended). Every record of the clean collection carries its latitude and
  longitude as floats, both finite, with \<open>40.4 <= lat <= 41.0\<close> and
  \<open>-74.4 <= lon <= -73.6\<close> as comparisons of doubles: the bounds are the doubles nearest
  to these decimals, of which the lower latitude bound lies below 40.4 (by at most
  \<open>2^-48\<close>), the lower longitude bound below -74.4 and the upper longitude bound above
  -73.6 (by at most \<open>2^-47\<close>). A raw record with a coordinate that does not convert, or
  with the pair outside the box, is never accepted; it is counted under
  \<open>skipped_invalid_coords\<close> exactly when it has passed the missing-field check and the
  duplicate check before.
\<close>

theorem coordinates_in_box:
  "(\<forall>c \<in> set (clean_collection (clean_pass str2float source old_clean)).
      \<exists>a b. latitude c = Finite a \<and> longitude c = Finite b \<and>
        lit_40_4 \<le> a \<and> a \<le> lit_41_0 \<and> lit_neg_74_4 \<le> b \<and> b \<le> lit_neg_73_6) \<and>
   lit_40_4 < 40.4 \<and> 40.4 - lit_40_4 \<le> 1 / 2 ^ 48 \<and> lit_41_0 = 41 \<and>
   lit_neg_74_4 < - 74.4 \<and> - 74.4 - lit_neg_74_4 \<le> 1 / 2 ^ 47 \<and>
   - 73.6 < lit_neg_73_6 \<and> lit_neg_73_6 - (- 73.6) \<le> 1 / 2 ^ 47 \<and>
   (coordinate_check str2float record \<longrightarrow>
      accepted (process_record str2float st record) = accepted st \<and>
      (skipped_invalid_coords (process_record str2float st record) =
         skipped_invalid_coords st + 1
       \<longleftrightarrow> \<not> missing_check record \<and> \<not> duplicate_check st record))"
proof -
  have "boxed (initial_state old_clean)"
    by (simp add: boxed_def initial_simps)
  then have "boxed (foldl (process_record str2float) (initial_state old_clean) source)"
    by (rule boxed_foldl)
  then have "\<forall>c \<in> set (clean_collection (clean_pass str2float source old_clean)).
      in_nyc_box (latitude c) (longitude c)"
    by (simp add: boxed_def clean_collection_foldl_initial list_all_iff)
  then have box: "\<forall>c \<in> set (clean_collection (clean_pass str2float source old_clean)).
      \<exists>a b. latitude c = Finite a \<and> longitude c = Finite b \<and>
        lit_40_4 \<le> a \<and> a \<le> lit_41_0 \<and> lit_neg_74_4 \<le> b \<and> b \<le> lit_neg_73_6"
    by (blast dest: in_nyc_box_finite)
  have rej: "accepted (process_record str2float st record) = accepted st \<and>
      (skipped_invalid_coords (process_record str2float st record) =
         skipped_invalid_coords st + 1
       \<longleftrightarrow> \<not> missing_check record \<and> \<not> duplicate_check st record)"
    if "coordinate_check str2float record"
    using that by (simp add: process_record_eq accepted_simps)
  show ?thesis
    using box rej literals_nearest by blast
qed

theorem coordinates_in_box_witness:
  "clean_collection (clean_pass sample_float [rec_valid, rec_coord, rec_corner] []) =
     [cleaned sample_float rec_valid, cleaned sample_float rec_corner] \<and>
   latitude (cleaned sample_float rec_valid) = Finite (double 2864007888030925 46) \<and>
   longitude (cleaned sample_float rec_valid) = Finite (double (- 5193213320311603) 46) \<and>
   lit_40_4 \<le> double 2864007888030925 46 \<and> double 2864007888030925 46 \<le> lit_41_0 \<and>
   lit_neg_74_4 \<le> double (- 5193213320311603) 46 \<and>
   double (- 5193213320311603) 46 \<le> lit_neg_73_6 \<and>
   latitude (cleaned sample_float rec_corner) = Finite lit_40_4 \<and>
   longitude (cleaned sample_float rec_corner) = Finite lit_neg_74_4 \<and>
   coordinate_check sample_float rec_coord \<and>
   \<not> missing_check rec_coord \<and> \<not> duplicate_check seen7 rec_coord \<and>
   accepted (process_record sample_float seen7 rec_coord) = [] \<and>
   skipped_invalid_coords (process_record sample_float seen7 rec_coord) = 1"
proof -
  have c: "coordinate_check sample_float rec_coord" "\<not> missing_check rec_coord"
    "\<not> duplicate_check seen7 rec_coord"
    by (simp_all add: rec_coord_def sample_defs)
  have l: "latitude (cleaned sample_float rec_valid) = Finite (double 2864007888030925 46)"
    "longitude (cleaned sample_float rec_valid) = Finite (double (- 5193213320311603) 46)"
    "latitude (cleaned sample_float rec_corner) = Finite lit_40_4"
    "longitude (cleaned sample_float rec_corner) = Finite lit_neg_74_4"
    by (simp_all add: rec_valid_def rec_corner_def mk_record_def sample_float_def get_def
          cleaned_def lit_40_4_def lit_neg_74_4_def)
  have b: "lit_40_4 \<le> double 2864007888030925 46" "double 2864007888030925 46 \<le> lit_41_0"
    "lit_neg_74_4 \<le> double (- 5193213320311603) 46"
    "double (- 5193213320311603) 46 \<le> lit_neg_73_6"
    by (simp_all add: lit_40_4_def lit_41_0_def lit_neg_74_4_def lit_neg_73_6_def double_def)
  have p: "clean_collection (clean_pass sample_float [rec_valid, rec_coord, rec_corner] []) =
     [cleaned sample_float rec_valid, cleaned sample_float rec_corner]"
    by (simp add: run_defs rec_valid_def rec_coord_def rec_corner_def sample_defs)
  have z: "accepted seen7 = []" "skipped_invalid_coords seen7 = 0"
    by (simp_all add: seen7_def accepted_def)
  show ?thesis
    using c l b p
      coordinates_in_box [of sample_float "[rec_valid, rec_coord, rec_corner]" "[]" rec_coord seen7]
    by (simp add: z)
qed

text \<open>
  C4 as stated fails: a record whose latitude is the empty string does not parse, and is
  counted as missing; a record with latitude 99.9 whose identifier was seen before is
  counted as duplicate. Neither raises \<open>skipped_invalid_coords\<close>. And a record with
  latitude \<open>40.4\<close> is accepted with the double of \<open>40.4\<close> as its latitude, a number
  below 40.4.
\<close>

theorem coordinate_claim_counterexample:
  "py_float sample_float (get rec_empty_lat ''latitude'') = Inl ValueError \<and>
   coordinate_check sample_float rec_empty_lat \<and>
   process_record sample_float (initial_state []) rec_empty_lat =
     (initial_state [])\<lparr>processed := 1, skipped_missing := 1\<rparr> \<and>
   skipped_invalid_coords (process_record sample_float (initial_state []) rec_empty_lat) = 0 \<and>
   coordinate_check sample_float rec_dup_coord \<and>
   process_record sample_float seen7 rec_dup_coord =
     seen7\<lparr>processed := 1, skipped_duplicate := 1\<rparr> \<and>
   skipped_invalid_coords (process_record sample_float seen7 rec_dup_coord) = 0 \<and>
   clean_collection (clean_pass sample_float [rec_corner] []) = [cleaned sample_float rec_corner] \<and>
   latitude (cleaned sample_float rec_corner) = Finite lit_40_4 \<and>
   lit_40_4 < 40.4"
proof -
  have e: "py_float sample_float (get rec_empty_lat ''latitude'') = Inl ValueError"
    "coordinate_check sample_float rec_empty_lat" "missing_check rec_empty_lat"
    by (simp_all add: rec_empty_lat_def sample_defs)
  have d: "coordinate_check sample_float rec_dup_coord" "\<not> missing_check rec_dup_coord"
    "duplicate_check seen7 rec_dup_coord"
    by (simp_all add: rec_dup_coord_def sample_defs)
  have z: "processed seen7 = 0" "skipped_duplicate seen7 = 0" "skipped_invalid_coords seen7 = 0"
    by (simp_all add: seen7_def)
  have p: "clean_collection (clean_pass sample_float [rec_corner] []) =
      [cleaned sample_float rec_corner]"
    by (simp add: run_defs rec_corner_def sample_defs)
  have l: "latitude (cleaned sample_float rec_corner) = Finite lit_40_4"
    by (simp add: rec_corner_def mk_record_def sample_float_def get_def cleaned_def lit_40_4_def)
  have "lit_40_4 < 40.4"
    by (simp add: lit_40_4_def double_def)
  with e d p l show ?thesis
    by (simp add: process_record_eq initial_simps z)
qed

section \<open>Idempotence\<close>

lemma clean_pass_old: "clean_pass str2float source old1 = clean_pass str2float source old2"
  by (simp add: clean_pass_def initial_state_def delete_many_def)

text \<open>
  C5. The pass does not depend on what the clean collection held before, since it is
  cleared first: a second run over the same raw collection, started from the result of
  the first, ends in the same state (clean collection and counters) and gives the same
  summary.
\<close>

theorem clean_idempotent:
  "clean_pass str2float source (clean_collection (clean_pass str2float source old_clean)) =
     clean_pass str2float source old_clean \<and>
   clean_2024_data str2float source (fst (clean_2024_data str2float source old_clean)) =
     clean_2024_data str2float source old_clean"
proof -
  have pass: "clean_pass str2float source x = clean_pass str2float source old_clean" for x
    by (rule clean_pass_old)
  have "clean_2024_data str2float source x = clean_2024_data str2float source old_clean" for x
    unfolding clean_2024_data_def by (simp only: pass [of x])
  with pass show ?thesis
    by (intro conjI)
qed

theorem clean_idempotent_witness:
  "clean_collection (clean_pass sample_float [rec_valid, rec_coord] []) =
     [cleaned sample_float rec_valid] \<and>
   clean_pass sample_float [rec_valid, rec_coord] [cleaned sample_float rec_valid] =
     clean_pass sample_float [rec_valid, rec_coord] [] \<and>
   fst (clean_2024_data sample_float [rec_valid, rec_coord] []) =
     [cleaned sample_float rec_valid] \<and>
   clean_2024_data sample_float [rec_valid, rec_coord] [cleaned sample_float rec_valid] =
     clean_2024_data sample_float [rec_valid, rec_coord] []"
proof -
  have c: "clean_collection (clean_pass sample_float [rec_valid, rec_coord] []) =
     [cleaned sample_float rec_valid]"
    by (simp add: run_defs rec_valid_def rec_coord_def sample_defs)
  then have d: "fst (clean_2024_data sample_float [rec_valid, rec_coord] []) =
     [cleaned sample_float rec_valid]"
    by (simp add: clean_2024_data_def Let_def)
  show ?thesis
    using clean_idempotent [of sample_float "[rec_valid, rec_coord]" "[]"]
    unfolding c d by (simp add: c d)
qed

section \<open>The summary on an empty raw collection\<close>

text \<open>
  C8. On an empty raw collection the summary divides by \<open>original_count = 0\<close>: the run
  clears the clean collection and then ends in \<open>ZeroDivisionError\<close> instead of a summary.
\<close>

theorem empty_store_division_by_zero:
  "clean_2024_data str2float [] old_clean = ([], Inl ZeroDivisionError)"
  by (simp add: clean_2024_data_def clean_pass_def initial_state_def delete_many_def
        final_count_def true_div_def)

section \<open>Retries\<close>


lemma try_block_inserted:
  "results \<noteq> [] \<Longrightarrow>
     try_block st (GetOk results Inserted) = Inr (after_page st 0 [] results, results)"
  by (simp add: try_block_def after_page_def Let_def insert_many_def)








section \<open>Resumption\<close>

lemma try_block_Inr:
  assumes "try_block st r = Inr (st', results)"
  shows "requested st' = requested st @ [offset st]" and "advanced st st'"
    and "\<not> insert_raises r \<Longrightarrow>
           length (collection st') + total_imported st =
           length (collection st) + total_imported st'"
  using assms
  by (auto simp add: try_block_def advanced_def Let_def insert_many_def
        split: response.splits insert_outcome.splits if_splits)

lemma try_block_Inl:
  assumes "try_block st r = Inl st'"
  shows "requested st' = requested st @ [offset st]" and "offset st' = offset st"
    and "total_imported st' = total_imported st"
    and "\<not> insert_raises r \<Longrightarrow> collection st' = collection st"
  using assms
  by (auto simp add: try_block_def Let_def
        split: response.splits insert_outcome.splits if_splits)

lemma retry_loop_requests:
  "retry_loop st retry_count rs = Some (st', res, rs') \<Longrightarrow> retry_count < max_retries \<Longrightarrow>
     (\<exists>ext. requested st' = requested st @ offset st # ext \<and> (\<forall>off \<in> set ext. off = offset st))
     \<and> advanced st st'"
proof (induction st retry_count rs rule: retry_loop.induct)
  case (1 st retry_count)
  then show ?case by simp
next
  case (2 st retry_count r rs)
  show ?case
  proof (cases "try_block st r")
    case (Inr p)
    then obtain st1 results where p: "try_block st r = Inr (st1, results)"
      by (cases p) simp
    with 2 have "st' = st1" by simp
    with try_block_Inr [OF p] show ?thesis by simp
  next
    case (Inl st1)
    note tb = try_block_Inl [OF Inl]
    show ?thesis
    proof (cases "retry_count + 1 < max_retries")
      case True
      let ?st = "st1\<lparr>slept := slept st1 @ [(retry_count + 1) * 5]\<rparr>"
      have "retry_loop ?st (retry_count + 1) rs = Some (st', res, rs')"
        using 2 Inl True by simp
      from "2.IH" [OF "2.prems"(2) Inl True this True]
      show ?thesis
        using tb by (auto simp add: advanced_def)
    next
      case False
      with 2 Inl have "st' = st1" by simp
      with tb show ?thesis by (simp add: advanced_def)
    qed
  qed
qed

lemma page_loop_requests:
  "page_loop st rs = Some st' \<Longrightarrow>
     (\<exists>ext. requested st' = requested st @ offset st # ext \<and> (\<forall>off \<in> set ext. offset st \<le> off))
     \<and> advanced st st'"
proof (induction st rs arbitrary: st' rule: page_loop.induct)
  case (1 st rs)
  from "1.prems" obtain st1 res rs1 where r: "retry_loop st 0 rs = Some (st1, res, rs1)"
    by (subst (asm) page_loop.simps) (auto split: option.splits)
  have m: "(0::nat) < max_retries" by (simp add: max_retries_def)
  note rr = retry_loop_requests [OF r m]
  show ?case
  proof (cases "\<exists>results. res = Some results \<and> \<not> (results = [] \<or> length results < batch_size)")
    case True
    then obtain results where res: "res = Some results"
      and more: "\<not> (results = [] \<or> length results < batch_size)"
      by blast
    have "page_loop st1 rs1 = Some st'"
      using "1.prems" r res more by (subst (asm) page_loop.simps) simp
    from "1.IH" [OF r refl refl res more this] rr
    show ?thesis
      by (fastforce simp add: advanced_def)
  next
    case False
    then have "st' = st1"
      using "1.prems" r by (subst (asm) page_loop.simps) (auto split: option.splits)
    with rr show ?thesis by auto
  qed
qed

lemma retry_loop_stored:
  "retry_loop st retry_count rs = Some (st', res, rs') \<Longrightarrow>
   list_all (\<lambda>r. \<not> insert_raises r) rs \<Longrightarrow>
     length (collection st') + total_imported st = length (collection st) + total_imported st'
     \<and> list_all (\<lambda>r. \<not> insert_raises r) rs'"
proof (induction st retry_count rs rule: retry_loop.induct)
  case (1 st retry_count)
  then show ?case by (simp split: if_splits)
next
  case (2 st retry_count r rs)
  from "2.prems"(2) have nr: "\<not> insert_raises r" and rest: "list_all (\<lambda>r. \<not> insert_raises r) rs"
    by simp_all
  show ?case
  proof (cases "retry_count < max_retries")
    case False
    with 2 show ?thesis by simp
  next
    case lt: True
    show ?thesis
    proof (cases "try_block st r")
      case (Inr p)
      then obtain st1 results where p: "try_block st r = Inr (st1, results)"
        by (cases p) simp
      with 2 lt have "st' = st1" "rs' = rs" by simp_all
      with try_block_Inr(3) [OF p nr] rest show ?thesis by simp
    next
      case (Inl st1)
      note tb = try_block_Inl [OF Inl]
      show ?thesis
      proof (cases "retry_count + 1 < max_retries")
        case True
        let ?st = "st1\<lparr>slept := slept st1 @ [(retry_count + 1) * 5]\<rparr>"
        have "retry_loop ?st (retry_count + 1) rs = Some (st', res, rs')"
          using 2 lt Inl True by simp
        from "2.IH" [OF lt Inl True this rest]
        show ?thesis
          using tb(3) tb(4) [OF nr] by simp
      next
        case False
        with 2 lt Inl have "st' = st1" "rs' = rs" by simp_all
        with tb(3) tb(4) [OF nr] rest show ?thesis by simp
      qed
    qed
  qed
qed

lemma page_loop_stored:
  "page_loop st rs = Some st' \<Longrightarrow> list_all (\<lambda>r. \<not> insert_raises r) rs \<Longrightarrow>
     length (collection st') + total_imported st = length (collection st) + total_imported st'"
proof (induction st rs arbitrary: st' rule: page_loop.induct)
  case (1 st rs)
  from "1.prems"(1) obtain st1 res rs1 where r: "retry_loop st 0 rs = Some (st1, res, rs1)"
    by (subst (asm) page_loop.simps) (auto split: option.splits)
  note rr = retry_loop_stored [OF r "1.prems"(2)]
  show ?case
  proof (cases "\<exists>results. res = Some results \<and> \<not> (results = [] \<or> length results < batch_size)")
    case True
    then obtain results where res: "res = Some results"
      and more: "\<not> (results = [] \<or> length results < batch_size)"
      by blast
    have "page_loop st1 rs1 = Some st'"
      using "1.prems"(1) r res more by (subst (asm) page_loop.simps) simp
    from "1.IH" [OF r refl refl res more this] rr
    show ?thesis by simp
  next
    case False
    then have "st' = st1"
      using "1.prems"(1) r by (subst (asm) page_loop.simps) (auto split: option.splits)
    with rr show ?thesis by simp
  qed
qed

text \<open>
  C7. In a run that started with \<open>N\<close> documents in the raw collection, the first offset
  requested is \<open>N\<close> and no offset requested is below \<open>N\<close>. The running total equals the
  cursor throughout; a successful insert of a page adds exactly the length of the page
  to the collection, the total and the cursor, and when no insert raised the total at
  the end is the number of documents in the collection.
\<close>

theorem resume_offset:
  assumes "download_2024_crime_data_robust coll response rs = Some (Finished st)"
  shows "requested st \<noteq> [] \<and> hd (requested st) = length coll \<and>
         (\<forall>off \<in> set (requested st). length coll \<le> off) \<and>
         total_imported st = offset st \<and> length coll \<le> total_imported st \<and>
         (list_all (\<lambda>r. \<not> insert_raises r) rs \<longrightarrow> length (collection st) = total_imported st) \<and>
         (\<forall>st0 results. results \<noteq> [] \<longrightarrow>
            (\<exists>st1. try_block st0 (GetOk results Inserted) = Inr (st1, results) \<and>
               collection st1 = collection st0 @ results \<and>
               total_imported st1 = total_imported st0 + length results \<and>
               offset st1 = offset st0 + length results))"
proof -
  let ?st0 = "\<lparr>collection = coll, offset = length coll, total_imported = length coll,
               requested = [], slept = []\<rparr>"
  have run: "page_loop ?st0 rs = Some st"
    using assms
    by (auto simp add: download_2024_crime_data_robust_def Let_def split: if_splits)
  from page_loop_requests [OF run]
  have req: "requested st \<noteq> [] \<and> hd (requested st) = length coll \<and>
         (\<forall>off \<in> set (requested st). length coll \<le> off) \<and>
         total_imported st = offset st \<and> length coll \<le> total_imported st"
    by (auto simp add: advanced_def)
  have stored: "length (collection st) = total_imported st"
    if "list_all (\<lambda>r. \<not> insert_raises r) rs"
    using page_loop_stored [OF run that] by simp
  have step: "\<exists>st1. try_block st0 (GetOk results Inserted) = Inr (st1, results) \<and>
               collection st1 = collection st0 @ results \<and>
               total_imported st1 = total_imported st0 + length results \<and>
               offset st1 = offset st0 + length results"
    if "results \<noteq> []" for st0 results
    using that by (simp add: try_block_inserted after_page_def)
  show ?thesis
    using req stored step by blast
qed

theorem resume_offset_witness:
  "download_2024_crime_data_robust [rec7_first] ''yes'' [GetOk [rec_valid, rec_coord] Inserted] =
     Some (Finished \<lparr>collection = [rec7_first, rec_valid, rec_coord], offset = 3,
             total_imported = 3, requested = [1], slept = []\<rparr>) \<and>
   hd [1::nat] = length [rec7_first] \<and>
   list_all (\<lambda>r. \<not> insert_raises r) [GetOk [rec_valid, rec_coord] Inserted] \<and>
   length [rec7_first, rec_valid, rec_coord] = (3::nat)"
proof -
  have run: "download_2024_crime_data_robust [rec7_first] ''yes''
       [GetOk [rec_valid, rec_coord] Inserted] =
     Some (Finished \<lparr>collection = [rec7_first, rec_valid, rec_coord], offset = 3,
             total_imported = 3, requested = [1], slept = []\<rparr>)"
    by (simp add: download_2024_crime_data_robust_def lower_def lower_char_def page_loop.simps
          try_block_def max_retries_def batch_size_def insert_many_def)
  show ?thesis
    using run resume_offset [OF run] by simp
qed

end
